theory Spec2Isabelle
  imports Complex_Main "HOL-Library.List_Lexorder" "HOL-Library.Char_ord"
    "HOL-Library.Product_Lexorder" "HOL-Library.Multiset" "HOL-Library.Sublist"
begin

section \<open>Data model\<close>

text \<open>
  The master store, the batches and the change sets are JSON lists of records
  \<^verbatim>\<open>{"id": ..., "text_content": ..., label: value, ...}\<close>. The identifier is the
  8-character prefix of a hex digest and the text is a string; the remaining keys of the
  dictionary are the label columns. A label value is a JSON scalar: the classifier's schema
  asks for the integers 0 and 1, a hand-edited file can hold anything else.
  A finite float is the rational number it denotes.
\<close>

datatype jval = JInt int | JFloat rat | JBool bool | JStr string | JNull

record item =
  item_id :: string
  text_content :: string
  labels :: "(string \<times> jval) list"

text \<open>The exceptions of the Python code that the model can raise.\<close>

datatype error = ValueError | TypeError | KeyError | OSError | JSONDecodeError

section \<open>Insertion-ordered dictionaries\<close>

text \<open>
  A Python \<^verbatim>\<open>dict\<close> keeps its keys in the order of their first insertion; assigning to
  a key that is present replaces the value and leaves the position alone.
\<close>

fun dict_set :: "'k \<Rightarrow> 'v \<Rightarrow> ('k \<times> 'v) list \<Rightarrow> ('k \<times> 'v) list" where
  "dict_set k v [] = [(k, v)]"
| "dict_set k v (p # ps) = (if fst p = k then (k, v) # ps else p # dict_set k v ps)"

definition dict_get :: "('k \<times> 'v) list \<Rightarrow> 'k \<Rightarrow> 'v \<Rightarrow> 'v" where
  "dict_get d k dflt = (case map_of d k of None \<Rightarrow> dflt | Some v \<Rightarrow> v)"

text \<open>\<^verbatim>\<open>{item['id']: item for item in xs}\<close>, built from an initial dictionary.\<close>

fun index_by_id :: "(string \<times> item) list \<Rightarrow> item list \<Rightarrow> (string \<times> item) list" where
  "index_by_id d [] = d"
| "index_by_id d (x # xs) = index_by_id (dict_set (item_id x) x d) xs"

section \<open>Fold-in of a batch: the merge of \<^verbatim>\<open>update_master_labels\<close>\<close>

text \<open>
  Lines 76 to 79 of \<^verbatim>\<open>label_manager.py\<close>:
  \<^verbatim>\<open>
  # Append and dedupe
  master += new
  unique = {item['id']: item for item in master}
  master = list(unique.values())
  \<close>
\<close>

definition append_and_dedupe :: "item list \<Rightarrow> item list \<Rightarrow> item list" where
  "append_and_dedupe master new = map snd (index_by_id [] (master @ new))"

text \<open>
  Lines 70 to 81: the merge happens only when a master file exists; the first fold-in
  takes the batch as it is.
\<close>

definition merged_master :: "item list option \<Rightarrow> item list \<Rightarrow> item list" where
  "merged_master existing new =
     (case existing of Some master \<Rightarrow> append_and_dedupe master new | None \<Rightarrow> new)"

text \<open>
  The record a list holds for an identifier when later records overwrite earlier ones:
  the last record with that identifier.
\<close>

definition by_id :: "item list \<Rightarrow> string \<Rightarrow> item option" where
  "by_id xs = map_of (map (\<lambda>x. (item_id x, x)) (rev xs))"

section \<open>Fold-in of a change set: the loop of \<^verbatim>\<open>integrate_changes_with_master\<close>\<close>

text \<open>
  Lines 141 to 161 of \<^verbatim>\<open>change_detection.py\<close>. The lookup is built once, before
  the loop, and only asked whether it has a key. A change whose identifier is in the lookup
  overwrites the first record with that identifier, where it stands; any other change is
  appended.
\<close>

fun replace_first :: "item \<Rightarrow> item list \<Rightarrow> item list" where
  "replace_first change [] = []"
| "replace_first change (x # rest) =
     (if item_id x = item_id change then change # rest else x # replace_first change rest)"

definition apply_change :: "string set \<Rightarrow> item list \<Rightarrow> item \<Rightarrow> item list" where
  "apply_change master_lookup master_data change =
     (if item_id change \<in> master_lookup then replace_first change master_data
      else master_data @ [change])"

definition integrate_loop :: "item list \<Rightarrow> item list \<Rightarrow> item list" where
  "integrate_loop master_data changes =
     foldl (apply_change (item_id ` set master_data)) master_data changes"

text \<open>
  The two fold-ins written as one would describe them: every record of the snapshot stays
  where it is and takes the batch's record when the batch has its identifier; the records
  of the batch with a new identifier follow, in the order of the batch.
\<close>

definition override :: "item list \<Rightarrow> item \<Rightarrow> item" where
  "override batch x = (case by_id batch (item_id x) of Some b \<Rightarrow> b | None \<Rightarrow> x)"



text \<open>The identifiers of a list in the order in which they first occur, each once.\<close>

definition first_ids :: "string list \<Rightarrow> string list" where
  "first_ids ks = rev (remdups (rev ks))"

section \<open>Timestamps and file names\<close>

text \<open>
  A reading of the clock, \<^verbatim>\<open>pd.Timestamp.now()\<close>, with the fields that
  \<^verbatim>\<open>strftime\<close> prints.
\<close>

record timestamp =
  ts_year :: nat
  ts_month :: nat
  ts_day :: nat
  ts_hour :: nat
  ts_minute :: nat
  ts_second :: nat
  ts_microsecond :: nat

definition digit_char :: "nat \<Rightarrow> char" where
  "digit_char d = ''0123456789'' ! (d mod 10)"

text \<open>\<^verbatim>\<open>str(n)\<close> of a natural number.\<close>

fun str_nat :: "nat \<Rightarrow> string" where
  "str_nat n = (if n < 10 then [digit_char n] else str_nat (n div 10) @ [digit_char (n mod 10)])"

declare str_nat.simps [simp del]

text \<open>\<^verbatim>\<open>str(n)\<close> of an integer.\<close>

definition str_int :: "int \<Rightarrow> string" where
  "str_int n = (if n < 0 then CHR ''-'' # str_nat (nat (- n)) else str_nat (nat n))"

text \<open>A number printed with at least \<open>w\<close> digits, zero-filled on the left.\<close>

definition zpad :: "nat \<Rightarrow> nat \<Rightarrow> string" where
  "zpad w n = replicate (w - length (str_nat n)) (CHR ''0'') @ str_nat n"

text \<open>\<^verbatim>\<open>strftime('%Y%m%d_%H%M%S')\<close> and \<^verbatim>\<open>strftime('%Y%m%d_%H%M%S_%f')\<close>.\<close>

definition strftime_sec :: "timestamp \<Rightarrow> string" where
  "strftime_sec t =
     zpad 4 (ts_year t) @ zpad 2 (ts_month t) @ zpad 2 (ts_day t) @ ''_'' @
     zpad 2 (ts_hour t) @ zpad 2 (ts_minute t) @ zpad 2 (ts_second t)"

definition strftime_usec :: "timestamp \<Rightarrow> string" where
  "strftime_usec t = strftime_sec t @ ''_'' @ zpad 6 (ts_microsecond t)"

text \<open>The second in which a reading of the clock falls.\<close>

definition clock_second :: "timestamp \<Rightarrow> nat \<times> nat \<times> nat \<times> nat \<times> nat \<times> nat" where
  "clock_second t =
     (ts_year t, ts_month t, ts_day t, ts_hour t, ts_minute t, ts_second t)"

text \<open>The field ranges of a timestamp that pandas can hold.\<close>

definition valid_timestamp :: "timestamp \<Rightarrow> bool" where
  "valid_timestamp t \<longleftrightarrow>
     1677 \<le> ts_year t \<and> ts_year t \<le> 2262 \<and> 1 \<le> ts_month t \<and> ts_month t \<le> 12 \<and>
     1 \<le> ts_day t \<and> ts_day t \<le> 31 \<and> ts_hour t < 24 \<and> ts_minute t < 60 \<and>
     ts_second t < 60 \<and> ts_microsecond t < 1000000"

text \<open>
  \<^verbatim>\<open>f"TOTAL_MANUAL_LABEL_AT-{timestamp}_TOTAL_SAMPLE_SIZE_{total_samples}.json"\<close>.
  Every file lives in the one master directory, so the order of the full paths is the
  order of these names.
\<close>

definition master_filename :: "string \<Rightarrow> nat \<Rightarrow> string" where
  "master_filename stamp total_samples =
     ''TOTAL_MANUAL_LABEL_AT-'' @ stamp @ ''_TOTAL_SAMPLE_SIZE_'' @ str_nat total_samples @ ''.json''"

text \<open>
  Lines 85 to 96 of \<^verbatim>\<open>label_manager.py\<close>: the name carries the second; when a
  file of that name exists, the clock is read again and the name carries the microsecond
  too.
\<close>

definition new_master_name :: "timestamp \<Rightarrow> timestamp \<Rightarrow> nat \<Rightarrow> string list \<Rightarrow> string" where
  "new_master_name now now' total_samples present =
     (let base_filename = master_filename (strftime_sec now) total_samples
      in if base_filename \<in> set present
         then master_filename (strftime_usec now') total_samples
         else base_filename)"

text \<open>
  \<^verbatim>\<open>str.upper()\<close> and \<^verbatim>\<open>str.replace(':', '_')\<close>; the selection methods are
  ASCII words.
\<close>

definition upper_char :: "char \<Rightarrow> char" where
  "upper_char c =
     (case map_of (zip ''abcdefghijklmnopqrstuvwxyz'' ''ABCDEFGHIJKLMNOPQRSTUVWXYZ'') c of
        Some u \<Rightarrow> u
      | None \<Rightarrow> c)"

definition upper :: "string \<Rightarrow> string" where
  "upper s = map upper_char s"

definition replace_colon :: "string \<Rightarrow> string" where
  "replace_colon s = map (\<lambda>c. if c = CHR '':'' then CHR ''_'' else c) s"

text \<open>Lines 153 to 155 of \<^verbatim>\<open>batch_processor.py\<close>: the name of a batch artifact.\<close>

definition batch_filename :: "string \<Rightarrow> timestamp \<Rightarrow> int \<Rightarrow> int \<Rightarrow> string \<Rightarrow> string" where
  "batch_filename selection_method now max_examples batch_size model =
     ''MANUAL_LABEL_'' @ upper selection_method @ ''_AT-'' @ strftime_sec now @
     ''_NUM_EXAMPLES_IN_PROMPT_'' @ str_int max_examples @
     ''_SAMPLE_SIZE_'' @ str_int batch_size @
     ''_MODEL-'' @ replace_colon model @ ''_.json''"

section \<open>The master directory\<close>

text \<open>
  The directory \<^verbatim>\<open>PATHS['manual_master']\<close> as the files that match
  \<^verbatim>\<open>TOTAL_MANUAL_LABEL_AT-*_TOTAL_SAMPLE_SIZE_*.json\<close>, each with what
  \<^verbatim>\<open>json.load\<close> makes of it: \<open>None\<close> stands for a file that does not parse, as
  an interrupted write leaves it. Names are unique within the directory.
\<close>

type_synonym directory = "(string \<times> item list option) list"

text \<open>
  \<^verbatim>\<open>open(path, 'w')\<close> followed by \<^verbatim>\<open>json.dump\<close>. The outcome of the write is
  an input of the model: the file is written; or it cannot be opened and nothing changes;
  or it is created, or emptied when it was there, and the dump fails.
\<close>

datatype write_outcome = Written | NotOpened | Interrupted

definition write_file :: "write_outcome \<Rightarrow> string \<Rightarrow> item list \<Rightarrow> directory \<Rightarrow> directory" where
  "write_file w name data dir =
     (case w of
        Written \<Rightarrow> dict_set name (Some data) dir
      | NotOpened \<Rightarrow> dir
      | Interrupted \<Rightarrow> dict_set name None dir)"

definition remove_file :: "string \<Rightarrow> directory \<Rightarrow> directory" where
  "remove_file name dir = filter (\<lambda>p. fst p \<noteq> name) dir"

text \<open>\<^verbatim>\<open>glob.glob(master_pattern)\<close>.\<close>

definition glob_master :: "directory \<Rightarrow> string list" where
  "glob_master dir = map fst dir"

text \<open>
  What a reader takes for the current snapshot, \<^verbatim>\<open>sorted(files)[-1]\<close> (lines 28 to 34
  of \<^verbatim>\<open>label_manager.py\<close>): the name, if there is a file at all.
\<close>

definition latest_master :: "directory \<Rightarrow> string option" where
  "latest_master dir =
     (if glob_master dir = [] then None else Some (last (sort (glob_master dir))))"

definition load_json :: "directory \<Rightarrow> string \<Rightarrow> error + item list" where
  "load_json dir name =
     (case map_of dir name of
        None \<Rightarrow> Inl OSError
      | Some None \<Rightarrow> Inl JSONDecodeError
      | Some (Some data) \<Rightarrow> Inr data)"

section \<open>Spreadsheet rows\<close>

text \<open>
  A cell of the sheet as \<^verbatim>\<open>pd.read_excel\<close> (line 50) delivers it: a number (an
  integer or a finite float, the rational it denotes), a truth value, a text (its
  characters are code points up to 255), a date, or nothing (\<^verbatim>\<open>NaN\<close>,
  \<^verbatim>\<open>None\<close>, \<^verbatim>\<open>NaT\<close>: what \<^verbatim>\<open>pd.notna\<close> rejects).
\<close>

datatype cell = CInt int | CFloat rat | CBool bool | CStr string | CDate | CNaN



text \<open>
  A row: \<^verbatim>\<open>str(row['id'])\<close>, and the other columns by their header. A sheet that has
  rows and no \<^verbatim>\<open>id\<close> column raises at its first row and is given as the error of
  loading it. The label names are different from \<^verbatim>\<open>id\<close> and \<^verbatim>\<open>text_content\<close>.
\<close>

record xrow =
  row_id :: string
  cells :: "(string \<times> cell) list"

definition py_notna :: "cell \<Rightarrow> bool" where
  "py_notna c \<longleftrightarrow> c \<noteq> CNaN"

text \<open>
  \<^verbatim>\<open>int(s)\<close> of a text: white space around it is dropped, a sign may lead, and the
  rest is decimal digits, with single underscores allowed between two digits, and no more
  than 4300 digits (the default limit of the interpreters from 3.11 on). The white space
  that \<^verbatim>\<open>int\<close> drops is the tab, the line feed, the vertical tab, the form feed,
  the carriage return and the space, and beyond ASCII the next-line character and the
  no-break space; the separators \<^verbatim>\<open>0x1C\<close> to \<^verbatim>\<open>0x1F\<close>, which
  \<^verbatim>\<open>str.strip\<close> would drop, are not among them.
\<close>

definition is_space :: "char \<Rightarrow> bool" where
  "is_space c \<longleftrightarrow> of_char c \<in> set [9, 10, 11, 12, 13, 32, 133, 160 :: nat]"

definition strip :: "string \<Rightarrow> string" where
  "strip s = rev (dropWhile is_space (rev (dropWhile is_space s)))"

definition digit_val :: "char \<Rightarrow> nat option" where
  "digit_val c = map_of (zip ''0123456789'' [0, 1, 2, 3, 4, 5, 6, 7, 8, 9]) c"

fun parse_digits :: "nat \<Rightarrow> string \<Rightarrow> nat option" where
  "parse_digits acc [] = Some acc"
| "parse_digits acc [c] =
     (case digit_val c of None \<Rightarrow> None | Some v \<Rightarrow> Some (10 * acc + v))"
| "parse_digits acc (c # d # rest) =
     (if c = CHR ''_''
      then (case digit_val d of None \<Rightarrow> None | Some v \<Rightarrow> parse_digits (10 * acc + v) rest)
      else (case digit_val c of None \<Rightarrow> None | Some v \<Rightarrow> parse_digits (10 * acc + v) (d # rest)))"

definition parse_unsigned :: "string \<Rightarrow> nat option" where
  "parse_unsigned s =
     (case s of
        [] \<Rightarrow> None
      | c # rest \<Rightarrow> (case digit_val c of None \<Rightarrow> None | Some v \<Rightarrow> parse_digits v rest))"

definition int_of_str :: "string \<Rightarrow> error + int" where
  "int_of_str s =
     (let t = strip s;
          negative = (t \<noteq> [] \<and> hd t = CHR ''-'');
          signed = (t \<noteq> [] \<and> (hd t = CHR ''-'' \<or> hd t = CHR ''+''));
          body = (if signed then tl t else t)
      in if 4300 < length (filter (\<lambda>c. digit_val c \<noteq> None) body) then Inl ValueError
         else case parse_unsigned body of
                None \<Rightarrow> Inl ValueError
              | Some n \<Rightarrow> Inr (if negative then - int n else int n))"

text \<open>\<^verbatim>\<open>int(x)\<close> of a float: towards zero.\<close>

definition trunc :: "rat \<Rightarrow> int" where
  "trunc q = (if 0 \<le> q then \<lfloor>q\<rfloor> else \<lceil>q\<rceil>)"

fun py_int :: "cell \<Rightarrow> error + int" where
  "py_int (CInt n) = Inr n"
| "py_int (CFloat q) = Inr (trunc q)"
| "py_int (CBool b) = Inr (if b then 1 else 0)"
| "py_int (CStr s) = int_of_str s"
| "py_int CDate = Inl TypeError"
| "py_int CNaN = Inl ValueError"


section \<open>\<^verbatim>\<open>detect_changes_from_excel\<close>\<close>

text \<open>
  Line 73 of \<^verbatim>\<open>change_detection.py\<close>:
  \<^verbatim>\<open>int(row.get(category, 0)) if pd.notna(row.get(category, 0)) else 0\<close>.
\<close>

definition modified_value :: "xrow \<Rightarrow> string \<Rightarrow> error + int" where
  "modified_value row category =
     (let v = dict_get (cells row) category (CInt 0)
      in if py_notna v then py_int v else Inr 0)"




subsection \<open>The change set as the specification words it\<close>

text \<open>
  The label vector of a row whose cells all convert, the test whether it differs from the
  vector of the original record, and the record that a differing row yields: the row's
  identifier, the original text, the row's label vector.
\<close>

definition convertible :: "string list \<Rightarrow> xrow \<Rightarrow> bool" where
  "convertible ALL_LABELS row =
     list_all (\<lambda>c. case modified_value row c of Inl e \<Rightarrow> False | Inr v \<Rightarrow> True) ALL_LABELS"

definition row_label :: "xrow \<Rightarrow> string \<Rightarrow> int" where
  "row_label row c = (case modified_value row c of Inl e \<Rightarrow> 0 | Inr v \<Rightarrow> v)"







subsection \<open>The export that the sheet comes from\<close>





section \<open>The training export\<close>

text \<open>
  Both fold-ins end by writing the training export again (lines 108 to 120 of
  \<^verbatim>\<open>label_manager.py\<close>, lines 12 to 27 of \<^verbatim>\<open>change_detection.py\<close>), after the
  snapshot has been replaced. The export does not touch the master directory, but it can
  raise. What the environment contributes is an input of the model: the error, if any, of
  creating the directory and opening the export file, and the errors, if any, that
  \<^verbatim>\<open>get_prompt\<close> raises for the two prompts it is asked for (they depend on the
  configuration alone). Writing to the opened file is taken to succeed.
\<close>

record export_env =
  export_open :: "error option"
  system_prompt :: "error option"
  user_prompt :: "error option"

text \<open>\<^verbatim>\<open>int(item[k])\<close> of a value of a record.\<close>

fun jval_int :: "jval \<Rightarrow> error + int" where
  "jval_int (JInt n) = Inr n"
| "jval_int (JFloat q) = Inr (trunc q)"
| "jval_int (JBool b) = Inr (if b then 1 else 0)"
| "jval_int (JStr s) = int_of_str s"
| "jval_int JNull = Inl TypeError"

text \<open>\<^verbatim>\<open>{k: int(item[k]) for k in ALL_LABELS}\<close>: the first error, if there is one.\<close>

fun label_ints :: "string list \<Rightarrow> item \<Rightarrow> error option" where
  "label_ints [] x = None"
| "label_ints (k # ks) x =
     (case map_of (labels x) k of
        None \<Rightarrow> Some KeyError
      | Some v \<Rightarrow> (case jval_int v of Inl e \<Rightarrow> Some e | Inr n \<Rightarrow> label_ints ks x))"

text \<open>The loop over the records: the user prompt, then the labels.\<close>

fun export_items :: "export_env \<Rightarrow> string list \<Rightarrow> item list \<Rightarrow> error option" where
  "export_items env ALL_LABELS [] = None"
| "export_items env ALL_LABELS (x # rest) =
     (case user_prompt env of
        Some e \<Rightarrow> Some e
      | None \<Rightarrow>
          (case label_ints ALL_LABELS x of
             Some e \<Rightarrow> Some e
           | None \<Rightarrow> export_items env ALL_LABELS rest))"

text \<open>
  \<^verbatim>\<open>create_system_message_with_examples()\<close> (lines 11 to 44 of
  \<^verbatim>\<open>prompt_builder.py\<close>) loads the file that is now the last of the directory, if
  there is one, and asks for the system prompt.
\<close>

definition system_message :: "export_env \<Rightarrow> directory \<Rightarrow> error option" where
  "system_message env dir =
     (case latest_master dir of
        None \<Rightarrow> system_prompt env
      | Some labeled_json_file \<Rightarrow>
          (case load_json dir labeled_json_file of
             Inl e \<Rightarrow> Some e
           | Inr labeled_examples \<Rightarrow> system_prompt env))"

text \<open>The whole export: the error that it raises, if it raises.\<close>

definition generate_jsonl ::
  "export_env \<Rightarrow> string list \<Rightarrow> directory \<Rightarrow> item list \<Rightarrow> error option" where
  "generate_jsonl env ALL_LABELS dir master =
     (case export_open env of
        Some e \<Rightarrow> Some e
      | None \<Rightarrow>
          (case system_message env dir of
             Some e \<Rightarrow> Some e
           | None \<Rightarrow> export_items env ALL_LABELS master))"

section \<open>\<^verbatim>\<open>update_master_labels\<close>\<close>

text \<open>
  Lines 60 to 125 of \<^verbatim>\<open>label_manager.py\<close>, as a function of the environment of the
  export, the label names of the configuration, the loaded batch (or the error of
  loading it), the two readings of the clock, the outcome of the write and the master
  directory. It returns the merged list, or the exception, and the directory it leaves.
\<close>

definition update_master_labels ::
  "export_env \<Rightarrow> string list \<Rightarrow> error + item list \<Rightarrow> timestamp \<Rightarrow> timestamp \<Rightarrow>
   write_outcome \<Rightarrow> directory \<Rightarrow> (error + item list) \<times> directory" where
  "update_master_labels env ALL_LABELS last_labeled now now' w dir =
     (case last_labeled of
        Inl e \<Rightarrow> (Inl e, dir)
      | Inr new \<Rightarrow>
          let existing_master_files = glob_master dir in
          (case (if existing_master_files \<noteq> []
                 then (case load_json dir (last (sort existing_master_files)) of
                         Inl e \<Rightarrow> Inl e
                       | Inr master \<Rightarrow> Inr (Some master))
                 else Inr None) of
             Inl e \<Rightarrow> (Inl e, dir)
           | Inr existing \<Rightarrow>
               let master = merged_master existing new;
                   master_json_file =
                     new_master_name now now' (length master) existing_master_files;
                   dir' = write_file w master_json_file master dir
               in if w \<noteq> Written then (Inl OSError, dir')
                  else
                    let dir'' = fold remove_file existing_master_files dir'
                    in (case generate_jsonl env ALL_LABELS dir'' master of
                          Some e \<Rightarrow> (Inl e, dir'')
                        | None \<Rightarrow> (Inr master, dir''))))"

section \<open>\<^verbatim>\<open>integrate_changes_with_master\<close>\<close>

text \<open>
  Lines 125 to 211 of \<^verbatim>\<open>change_detection.py\<close>. Every exception is caught and turned
  into the result \<^verbatim>\<open>None\<close>, also one that the export raises after the snapshot has
  been replaced. The name of the new file carries the second only, and only the file
  that was read is removed.
\<close>

definition integrate_changes_with_master ::
  "export_env \<Rightarrow> string list \<Rightarrow> item list \<Rightarrow> timestamp \<Rightarrow> write_outcome \<Rightarrow> directory \<Rightarrow>
   string option \<times> directory" where
  "integrate_changes_with_master env ALL_LABELS changes now w dir =
     (let existing_files = glob_master dir in
      if existing_files \<noteq> [] then
        let latest_file = last (sort existing_files) in
        (case load_json dir latest_file of
           Inl e \<Rightarrow> (None, dir)
         | Inr master_data \<Rightarrow>
             let master_data' = integrate_loop master_data changes;
                 new_master_file =
                   master_filename (strftime_sec now) (length master_data');
                 dir' = write_file w new_master_file master_data' dir
             in if w \<noteq> Written then (None, dir')
                else
                  let dir'' = remove_file latest_file dir'
                  in (case generate_jsonl env ALL_LABELS dir'' master_data' of
                        Some e \<Rightarrow> (None, dir'')
                      | None \<Rightarrow> (Some new_master_file, dir'')))
      else
        let new_master_file = master_filename (strftime_sec now) (length changes);
            dir' = write_file w new_master_file changes dir
        in if w \<noteq> Written then (None, dir')
           else (case generate_jsonl env ALL_LABELS dir' changes of
                   Some e \<Rightarrow> (None, dir')
                 | None \<Rightarrow> (Some new_master_file, dir')))"

text \<open>The records of the current snapshot, as the next operation will load them.\<close>

definition current_snapshot :: "directory \<Rightarrow> (error + item list) option" where
  "current_snapshot dir = map_option (load_json dir) (latest_master dir)"

section \<open>Selecting a batch by text length\<close>

text \<open>
  The data frame of \<^verbatim>\<open>select_batch_by_length\<close>: its rows in their order, each with
  its index label and the columns \<^verbatim>\<open>id\<close> and \<^verbatim>\<open>text_content\<close>. A character of
  the text stands for one code point, so that \<open>length\<close> is \<^verbatim>\<open>str.len()\<close>.
\<close>

record df_row =
  df_id :: string
  df_text :: string

type_synonym frame = "(nat \<times> df_row) list"

text \<open>\<^verbatim>\<open>unlabeled[text_column].str.len()\<close>: the series of the lengths, by index label.\<close>

definition str_len :: "frame \<Rightarrow> (nat \<times> nat) list" where
  "str_len df = map (\<lambda>p. (fst p, length (df_text (snd p)))) df"

text \<open>
  \<^verbatim>\<open>Series.nlargest(n)\<close> of pandas, by its documentation: the first \<open>n\<close> entries in
  descending order of the value, and with \<^verbatim>\<open>keep='first'\<close>, the default, entries of
  equal value in the order in which they occur; nothing for \<open>n \<le> 0\<close>.
\<close>

definition nlargest :: "int \<Rightarrow> (nat \<times> nat) list \<Rightarrow> (nat \<times> nat) list" where
  "nlargest n series =
     (if n \<le> 0 then [] else take (nat n) (sort_key (\<lambda>p. - int (snd p)) series))"

text \<open>\<^verbatim>\<open>df.loc[labels]\<close>: for each label in turn, the rows that carry it.\<close>

definition loc :: "frame \<Rightarrow> nat list \<Rightarrow> frame" where
  "loc df index = concat (map (\<lambda>l. filter (\<lambda>p. fst p = l) df) index)"

text \<open>
  Lines 14 to 29 of \<^verbatim>\<open>batch_processor.py\<close>. The empty frame that the function returns
  when nothing is left to label is the empty list of rows.
\<close>

definition select_batch_by_length :: "frame \<Rightarrow> string set \<Rightarrow> int \<Rightarrow> frame" where
  "select_batch_by_length df labeled_ids batch_size =
     (let unlabeled = filter (\<lambda>p. df_id (snd p) \<notin> labeled_ids) df
      in if length unlabeled = 0 then []
         else loc unlabeled
                (map fst (nlargest (min batch_size (int (length unlabeled)))
                            (str_len unlabeled))))"

text \<open>The length of the text of a row of a frame.\<close>

definition text_len :: "nat \<times> df_row \<Rightarrow> nat" where
  "text_len p = length (df_text (snd p))"

section \<open>Example data\<close>

text \<open>
  Two readings of the clock within one second, and a later one; records for the
  identifiers \<open>r1\<close>, \<open>r2\<close> and \<open>r3\<close> with one label column.
\<close>

abbreviation noon_100 :: timestamp where
  "noon_100 \<equiv> \<lparr>ts_year = 2025, ts_month = 1, ts_day = 1, ts_hour = 12, ts_minute = 0,
     ts_second = 0, ts_microsecond = 100\<rparr>"

abbreviation noon_200 :: timestamp where
  "noon_200 \<equiv> \<lparr>ts_year = 2025, ts_month = 1, ts_day = 1, ts_hour = 12, ts_minute = 0,
     ts_second = 0, ts_microsecond = 200\<rparr>"

abbreviation noon_past_5s :: timestamp where
  "noon_past_5s \<equiv> \<lparr>ts_year = 2025, ts_month = 1, ts_day = 1, ts_hour = 12, ts_minute = 0,
     ts_second = 5, ts_microsecond = 0\<rparr>"

text \<open>An environment in which the training export meets no error.\<close>

abbreviation export_ok :: export_env where
  "export_ok \<equiv> \<lparr>export_open = None, system_prompt = None, user_prompt = None\<rparr>"

abbreviation rec :: "string \<Rightarrow> string \<Rightarrow> int \<Rightarrow> item" where
  "rec i t v \<equiv> \<lparr>item_id = i, text_content = t, labels = [(''L1'', JInt v)]\<rparr>"



abbreviation frame_row :: "string \<Rightarrow> string \<Rightarrow> df_row" where
  "frame_row i t \<equiv> \<lparr>df_id = i, df_text = t\<rparr>"

section \<open>Properties of the merge\<close>

subsection \<open>Facts about the dictionary\<close>

lemma map_fst_dict_set:
  "map fst (dict_set k v d) = (if k \<in> fst ` set d then map fst d else map fst d @ [k])"
  by (induction d) auto

lemma distinct_dict_set: "distinct (map fst d) \<Longrightarrow> distinct (map fst (dict_set k v d))"
  by (simp add: map_fst_dict_set)

lemma map_of_dict_set: "map_of (dict_set k v d) = (map_of d)(k \<mapsto> v)"
  by (induction d) (auto simp: fun_eq_iff)

lemma distinct_index_by_id:
  "distinct (map fst d) \<Longrightarrow> distinct (map fst (index_by_id d xs))"
  by (induction xs arbitrary: d) (simp_all add: distinct_dict_set)

lemma keys_index_by_id:
  "fst ` set (index_by_id d xs) = fst ` set d \<union> item_id ` set xs"
proof (induction xs arbitrary: d)
  case Nil
  then show ?case by simp
next
  case (Cons x xs)
  have "fst ` set (dict_set (item_id x) x d) = insert (item_id x) (fst ` set d)"
    using map_fst_dict_set [of "item_id x" x d]
    by (metis (no_types, lifting) Un_insert_right insert_absorb list.set(1) list.set(2)
        list.set_map set_append sup_bot.right_neutral)
  with Cons.IH [of "dict_set (item_id x) x d"] show ?case by auto
qed

lemma map_of_index_by_id:
  "map_of (index_by_id d xs) = map_of d ++ by_id xs"
proof (induction xs arbitrary: d)
  case Nil
  then show ?case by (simp add: by_id_def)
next
  case (Cons x xs)
  have "by_id (x # xs) = [item_id x \<mapsto> x] ++ by_id xs"
    by (simp add: by_id_def map_of_append fun_eq_iff map_add_def)
  then show ?case
    by (simp add: Cons.IH map_of_dict_set fun_eq_iff map_add_def split: option.splits)
qed

lemma key_is_id_dict_set:
  "map fst d = map item_id (map snd d) \<Longrightarrow>
   map fst (dict_set (item_id x) x d) = map item_id (map snd (dict_set (item_id x) x d))"
  by (induction d) auto

lemma key_is_id_index_by_id:
  "map fst d = map item_id (map snd d) \<Longrightarrow>
   map fst (index_by_id d xs) = map item_id (map snd (index_by_id d xs))"
proof (induction xs arbitrary: d)
  case Nil
  then show ?case by simp
next
  case (Cons x xs)
  show ?case
    using Cons.IH [OF key_is_id_dict_set [OF Cons.prems, of x]] by simp
qed

lemma ids_append_and_dedupe:
  "map item_id (append_and_dedupe master new) = map fst (index_by_id [] (master @ new))"
  unfolding append_and_dedupe_def
  using key_is_id_index_by_id [of "[]" "master @ new"] by simp

lemma distinct_append_and_dedupe: "distinct (map item_id (append_and_dedupe master new))"
  by (simp add: ids_append_and_dedupe distinct_index_by_id)

lemma by_id_append: "by_id (xs @ ys) = by_id xs ++ by_id ys"
  by (simp add: by_id_def map_of_append)

lemma by_id_distinct:
  "distinct (map item_id xs) \<Longrightarrow> by_id xs = map_of (map (\<lambda>x. (item_id x, x)) xs)"
  unfolding by_id_def
  by (metis (no_types, lifting) distinct_rev map_of_inject_set rev_map set_rev
      map_map comp_def fst_conv list.map_cong0)

subsection \<open>The dictionary merge in closed form\<close>

lemma dict_set_new: "k \<notin> fst ` set d \<Longrightarrow> dict_set k v d = d @ [(k, v)]"
  by (induction d) auto

lemma dict_set_old:
  "k \<in> fst ` set d \<Longrightarrow> distinct (map fst d) \<Longrightarrow>
   dict_set k v d = map (\<lambda>p. if fst p = k then (k, v) else p) d"
proof (induction d)
  case Nil
  then show ?case by simp
next
  case (Cons p ps)
  show ?case
  proof (cases "fst p = k")
    case True
    with Cons.prems(2) have "\<forall>q \<in> set ps. fst q \<noteq> k" by (auto simp: image_iff)
    then have "map (\<lambda>q. if fst q = k then (k, v) else q) ps = ps"
      by (induction ps) auto
    with True show ?thesis by simp
  next
    case False
    with Cons show ?thesis by auto
  qed
qed

lemma by_id_Cons:
  "by_id (x # xs) k =
     (case by_id xs k of Some b \<Rightarrow> Some b | None \<Rightarrow> if k = item_id x then Some x else None)"
  by (simp add: by_id_def map_of_append map_add_def split: option.splits)

lemma by_id_None: "by_id xs k = None \<longleftrightarrow> k \<notin> item_id ` set xs"
  by (simp add: by_id_def map_of_eq_None_iff image_image)

lemma by_id_Some_id: "by_id xs k = Some b \<Longrightarrow> item_id b = k \<and> b \<in> set xs"
  unfolding by_id_def by (auto dest!: map_of_SomeD)

lemma index_by_id_closed:
  "distinct (map fst d) \<Longrightarrow> distinct (map item_id xs) \<Longrightarrow>
   index_by_id d xs =
     map (\<lambda>p. (fst p, case by_id xs (fst p) of Some b \<Rightarrow> b | None \<Rightarrow> snd p)) d @
     map (\<lambda>b. (item_id b, b)) (filter (\<lambda>b. item_id b \<notin> fst ` set d) xs)"
proof (induction xs arbitrary: d)
  case Nil
  then show ?case by (simp add: by_id_def)
next
  case (Cons x xs)
  let ?k = "item_id x"
  let ?d = "dict_set ?k x d"
  from Cons.prems have dx: "distinct (map item_id xs)" and nx: "?k \<notin> item_id ` set xs"
    by auto
  have none: "by_id xs ?k = None" using nx by (simp add: by_id_None)
  have IH: "index_by_id ?d xs =
     map (\<lambda>p. (fst p, case by_id xs (fst p) of Some b \<Rightarrow> b | None \<Rightarrow> snd p)) ?d @
     map (\<lambda>b. (item_id b, b)) (filter (\<lambda>b. item_id b \<notin> fst ` set ?d) xs)"
    by (rule Cons.IH [OF distinct_dict_set [OF Cons.prems(1)] dx])
  show ?case
  proof (cases "?k \<in> fst ` set d")
    case True
    have d': "?d = map (\<lambda>p. if fst p = ?k then (?k, x) else p) d"
      by (rule dict_set_old [OF True Cons.prems(1)])
    have keys: "fst ` set ?d = fst ` set d"
      using True map_fst_dict_set [of ?k x d]
      by (metis list.set_map)
    have "map (\<lambda>p. (fst p, case by_id xs (fst p) of Some b \<Rightarrow> b | None \<Rightarrow> snd p)) ?d =
          map (\<lambda>p. (fst p, case by_id (x # xs) (fst p) of Some b \<Rightarrow> b | None \<Rightarrow> snd p)) d"
      unfolding d' by (auto simp: by_id_Cons none split: option.splits)
    with IH keys True show ?thesis by simp
  next
    case False
    have d': "?d = d @ [(?k, x)]" by (rule dict_set_new [OF False])
    have "filter (\<lambda>b. item_id b \<notin> fst ` set ?d) xs = filter (\<lambda>b. item_id b \<notin> fst ` set d) xs"
      unfolding d' using nx by (intro filter_cong) (auto simp: image_iff)
    moreover have
      "map (\<lambda>p. (fst p, case by_id xs (fst p) of Some b \<Rightarrow> b | None \<Rightarrow> snd p)) d =
       map (\<lambda>p. (fst p, case by_id (x # xs) (fst p) of Some b \<Rightarrow> b | None \<Rightarrow> snd p)) d"
      using False by (auto simp: by_id_Cons image_iff split: option.splits)
    ultimately show ?thesis using IH False none by (simp add: d')
  qed
qed

lemma index_by_id_append:
  "index_by_id d (xs @ ys) = index_by_id (index_by_id d xs) ys"
  by (induction xs arbitrary: d) simp_all

lemma index_by_id_distinct:
  "distinct (map item_id xs) \<Longrightarrow> index_by_id [] xs = map (\<lambda>b. (item_id b, b)) xs"
  using index_by_id_closed [of "[]" xs] by simp


subsection \<open>The change loop in closed form\<close>




lemma override_Cons_same:
  "item_id x = item_id b \<Longrightarrow> item_id b \<notin> item_id ` set bs \<Longrightarrow> override (b # bs) x = b"
  using by_id_None [of bs "item_id b"] by (simp add: override_def by_id_Cons)

lemma override_absent: "item_id x \<notin> item_id ` set bs \<Longrightarrow> override bs x = x"
  using by_id_None [of bs "item_id x"] by (simp add: override_def)




section \<open>Last write wins, by identifier\<close>

text \<open>
  C1. Folding a batch into an existing master snapshot merges by identifier, and the last
  write wins: the result holds each identifier of the snapshot or of the batch exactly
  once; an identifier of the batch maps to the last record of the batch that has it; an
  identifier of the snapshot that the batch does not have keeps the last record of the
  snapshot that has it. Within a batch too a later record overwrites an earlier one with
  the same identifier.
\<close>

theorem fold_in_last_write_wins:
  "distinct (map item_id (merged_master (Some S) B)) \<and>
   set (map item_id (merged_master (Some S) B)) = item_id ` set S \<union> item_id ` set B \<and>
   by_id (merged_master (Some S) B) = by_id S ++ by_id B"
proof -
  let ?d = "index_by_id [] (S @ B)"
  have ids: "map item_id (append_and_dedupe S B) = map fst ?d"
    by (rule ids_append_and_dedupe)
  have dist: "distinct (map item_id (append_and_dedupe S B))"
    by (rule distinct_append_and_dedupe)
  have keys: "set (map item_id (append_and_dedupe S B)) = item_id ` set S \<union> item_id ` set B"
    using keys_index_by_id [of "[]" "S @ B"] by (simp add: ids image_Un)
  have "by_id (append_and_dedupe S B) =
          map_of (map (\<lambda>x. (item_id x, x)) (append_and_dedupe S B))"
    by (rule by_id_distinct [OF dist])
  also have "map (\<lambda>x. (item_id x, x)) (append_and_dedupe S B) = ?d"
    using key_is_id_index_by_id [of "[]" "S @ B"]
    by (simp add: append_and_dedupe_def comp_def list_eq_iff_nth_eq prod_eq_iff)
  also have "map_of ?d = by_id S ++ by_id B"
    by (simp add: map_of_index_by_id by_id_append)
  finally show ?thesis using dist keys by (simp add: merged_master_def)
qed

text \<open>
  The specification has every record of the batch with a new identifier appended. Two
  records of one batch with the same new identifier: the earlier one is not in the
  result.
\<close>

theorem fold_in_drops_earlier_duplicate:
  "\<lparr>item_id = ''r3'', text_content = ''c'', labels = [(''L1'', JInt 0)]\<rparr>
     \<in> set [\<lparr>item_id = ''r3'', text_content = ''c'', labels = [(''L1'', JInt 0)]\<rparr>,
            \<lparr>item_id = ''r3'', text_content = ''c'', labels = [(''L1'', JInt 1)]\<rparr>] \<and>
   ''r3'' \<notin> item_id ` set [\<lparr>item_id = ''r1'', text_content = ''a'', labels = [(''L1'', JInt 1)]\<rparr>] \<and>
   \<lparr>item_id = ''r3'', text_content = ''c'', labels = [(''L1'', JInt 0)]\<rparr>
     \<notin> set (merged_master
          (Some [\<lparr>item_id = ''r1'', text_content = ''a'', labels = [(''L1'', JInt 1)]\<rparr>])
          [\<lparr>item_id = ''r3'', text_content = ''c'', labels = [(''L1'', JInt 0)]\<rparr>,
           \<lparr>item_id = ''r3'', text_content = ''c'', labels = [(''L1'', JInt 1)]\<rparr>])"
  by (simp add: merged_master_def append_and_dedupe_def)

section \<open>Positions under fold-in\<close>




section \<open>Evaluating names and runs\<close>

lemma str_nat_digit: "n < 10 \<Longrightarrow> str_nat n = [digit_char n]"
  by (simp add: str_nat.simps)

lemma str_nat_step: "10 \<le> n \<Longrightarrow> str_nat n = str_nat (n div 10) @ [digit_char (n mod 10)]"
  by (subst str_nat.simps) simp

lemma replicate_numeral: "replicate (numeral k) x = x # replicate (pred_numeral k) x"
  by (simp add: numeral_eq_Suc)

lemmas names_eval = master_filename_def strftime_sec_def strftime_usec_def zpad_def
  str_nat_digit str_nat_step digit_char_def replicate_numeral

lemmas run_eval = update_master_labels_def integrate_changes_with_master_def glob_master_def
  new_master_name_def write_file_def merged_master_def append_and_dedupe_def load_json_def
  remove_file_def integrate_loop_def apply_change_def latest_master_def current_snapshot_def
  generate_jsonl_def system_message_def Let_def names_eval

section \<open>Folding the same batch in twice\<close>

text \<open>
  C2. Folding a batch in twice should give the snapshot that folding it in once gives.
  With no master file the first fold-in writes the batch as it is, without the merge by
  identifier; the second one merges. For a batch that holds the identifier \<open>r1\<close> twice,
  the snapshot has two records after the first fold-in and one after the second.
\<close>

theorem fold_in_twice_from_no_master:
  "update_master_labels export_ok [''L1''] (Inr [rec ''r1'' ''a'' 0, rec ''r1'' ''a'' 1]) noon_100 noon_100 Written [] =
     (Inr [rec ''r1'' ''a'' 0, rec ''r1'' ''a'' 1],
      [(''TOTAL_MANUAL_LABEL_AT-20250101_120000_TOTAL_SAMPLE_SIZE_2.json'',
        Some [rec ''r1'' ''a'' 0, rec ''r1'' ''a'' 1])]) \<and>
   update_master_labels export_ok [''L1''] (Inr [rec ''r1'' ''a'' 0, rec ''r1'' ''a'' 1]) noon_past_5s noon_past_5s Written
     [(''TOTAL_MANUAL_LABEL_AT-20250101_120000_TOTAL_SAMPLE_SIZE_2.json'',
       Some [rec ''r1'' ''a'' 0, rec ''r1'' ''a'' 1])] =
     (Inr [rec ''r1'' ''a'' 1],
      [(''TOTAL_MANUAL_LABEL_AT-20250101_120005_TOTAL_SAMPLE_SIZE_1.json'',
        Some [rec ''r1'' ''a'' 1])])"
  by (simp add: run_eval)

text \<open>
  Where a master file exists, the fold-in is idempotent whatever the snapshot and the
  batch hold.
\<close>

lemma assoc_list_eqI:
  "map fst xs = map fst ys \<Longrightarrow> distinct (map fst xs) \<Longrightarrow> map_of xs = map_of ys \<Longrightarrow> xs = ys"
proof (induction xs arbitrary: ys)
  case Nil
  then show ?case by simp
next
  case (Cons x xs)
  from Cons.prems(1) obtain y ys' where ys: "ys = y # ys'" and k: "fst x = fst y"
    and ks: "map fst xs = map fst ys'"
    by (cases ys) auto
  from Cons.prems(3) have "map_of (x # xs) (fst x) = map_of ys (fst x)"
    by (rule fun_cong)
  with ys k have v: "snd x = snd y" by simp
  have "map_of xs = map_of ys'"
  proof
    fix a
    show "map_of xs a = map_of ys' a"
    proof (cases "a = fst x")
      case True
      with Cons.prems(2) have "a \<notin> fst ` set xs" by simp
      moreover from this ks have "a \<notin> fst ` set ys'" by (metis list.set_map)
      ultimately have "map_of xs a = None" and "map_of ys' a = None"
        by (simp_all add: map_of_eq_None_iff)
      then show ?thesis by simp
    next
      case False
      from Cons.prems(3) have "map_of (x # xs) a = map_of ys a" by (rule fun_cong)
      with False ys k show ?thesis by simp
    qed
  qed
  with Cons.IH [OF ks] Cons.prems(2) have "xs = ys'" by simp
  with ys k v show ?case by (simp add: prod_eq_iff)
qed

lemma keys_index_by_id_known:
  "item_id ` set xs \<subseteq> fst ` set d \<Longrightarrow> map fst (index_by_id d xs) = map fst d"
proof (induction xs arbitrary: d)
  case Nil
  then show ?case by simp
next
  case (Cons x xs)
  have k: "map fst (dict_set (item_id x) x d) = map fst d"
    using Cons.prems by (simp add: map_fst_dict_set)
  then have "fst ` set (dict_set (item_id x) x d) = fst ` set d" by (metis list.set_map)
  with Cons.prems have "item_id ` set xs \<subseteq> fst ` set (dict_set (item_id x) x d)" by simp
  from Cons.IH [OF this] k show ?case by simp
qed

lemma append_and_dedupe_idem:
  "append_and_dedupe (append_and_dedupe S B) B = append_and_dedupe S B"
proof -
  let ?M = "append_and_dedupe S B"
  let ?d = "index_by_id [] (S @ B)"
  have dM: "distinct (map item_id ?M)" by (rule distinct_append_and_dedupe)
  have dd: "distinct (map fst ?d)" by (simp add: distinct_index_by_id)
  have keyed: "map fst ?d = map item_id (map snd ?d)"
    using key_is_id_index_by_id [of "[]" "S @ B"] by simp
  have M_d: "map (\<lambda>b. (item_id b, b)) ?M = ?d"
    using keyed by (simp add: append_and_dedupe_def comp_def list_eq_iff_nth_eq prod_eq_iff)
  have lookup: "map_of ?d = by_id S ++ by_id B"
    by (simp add: map_of_index_by_id by_id_append)
  have known: "item_id ` set B \<subseteq> fst ` set ?d"
    by (auto simp: keys_index_by_id)
  have "index_by_id [] (?M @ B) = index_by_id ?d B"
    by (simp add: index_by_id_append index_by_id_distinct [OF dM] M_d)
  also have "\<dots> = ?d"
  proof (rule assoc_list_eqI)
    show "map fst (index_by_id ?d B) = map fst ?d"
      by (rule keys_index_by_id_known [OF known])
    show "distinct (map fst (index_by_id ?d B))"
      by (rule distinct_index_by_id [OF dd])
    show "map_of (index_by_id ?d B) = map_of ?d"
    proof -
      have "(by_id S ++ by_id B) ++ by_id B = by_id S ++ by_id B"
        by (simp add: fun_eq_iff map_add_def split: option.splits)
      then show ?thesis by (simp only: map_of_index_by_id [of ?d B] lookup)
    qed
  qed
  finally show ?thesis by (simp add: append_and_dedupe_def)
qed

lemma update_master_labels_existing:
  "glob_master dir \<noteq> [] \<Longrightarrow> load_json dir (last (sort (glob_master dir))) = Inr S \<Longrightarrow>
   fst (update_master_labels env L (Inr B) now now' w dir) = Inr M \<Longrightarrow>
   M = append_and_dedupe S B"
  by (auto simp: update_master_labels_def merged_master_def Let_def
      split: if_splits option.splits)

section \<open>Uniqueness of identifiers in the master store\<close>

text \<open>
  C3. Starting from no snapshot, every snapshot that a sequence of fold-ins leaves should
  hold each identifier once. The first fold-in of \<^verbatim>\<open>update_master_labels\<close> writes
  the batch without the merge by identifier, so a batch with the identifier \<open>r2\<close> twice
  becomes a snapshot with \<open>r2\<close> twice. The loop of
  \<^verbatim>\<open>integrate_changes_with_master\<close> asks the lookup it built before the loop, so
  two changes with the new identifier \<open>r3\<close> are both appended.
\<close>

theorem snapshot_with_repeated_id:
  "current_snapshot
     (snd (update_master_labels export_ok [''L1''] (Inr [rec ''r2'' ''b'' 0, rec ''r2'' ''b'' 1])
             noon_100 noon_100 Written [])) =
     Some (Inr [rec ''r2'' ''b'' 0, rec ''r2'' ''b'' 1]) \<and>
   \<not> distinct (map item_id [rec ''r2'' ''b'' 0, rec ''r2'' ''b'' 1]) \<and>
   current_snapshot
     (snd (integrate_changes_with_master export_ok [''L1''] [rec ''r3'' ''c'' 0, rec ''r3'' ''c'' 1]
             noon_past_5s Written
             (snd (update_master_labels export_ok [''L1''] (Inr [rec ''r1'' ''a'' 1])
                     noon_100 noon_100 Written [])))) =
     Some (Inr [rec ''r1'' ''a'' 1, rec ''r3'' ''c'' 0, rec ''r3'' ''c'' 1]) \<and>
   \<not> distinct (map item_id [rec ''r1'' ''a'' 1, rec ''r3'' ''c'' 0, rec ''r3'' ''c'' 1])"
  by (simp add: run_eval)

text \<open>Where the merge by identifier runs, its result holds each identifier once.\<close>

lemma update_master_labels_existing_distinct:
  "glob_master dir \<noteq> [] \<Longrightarrow>
   fst (update_master_labels env L (Inr B) now now' w dir) = Inr M \<Longrightarrow>
   distinct (map item_id M)"
  by (auto simp: update_master_labels_def merged_master_def Let_def distinct_append_and_dedupe
      split: sum.splits if_splits option.splits)

section \<open>Write, then delete\<close>

text \<open>
  C5. The old snapshot should go only once the new one is written, and a reader should
  never find the directory without a snapshot. \<^verbatim>\<open>update_master_labels\<close> asks whether
  the new name is taken and changes it if so; \<^verbatim>\<open>integrate_changes_with_master\<close>
  does not. A change to the one record of the snapshot, integrated within the second in
  which the snapshot was written: the new file has the name of the old one, is written
  over it, and is then removed as the old one. The call reports the new file, and the
  directory is empty.
\<close>

theorem integrate_within_the_second_removes_the_snapshot:
  "update_master_labels export_ok [''L1''] (Inr [rec ''r1'' ''a'' 1]) noon_100 noon_100 Written [] =
     (Inr [rec ''r1'' ''a'' 1],
      [(''TOTAL_MANUAL_LABEL_AT-20250101_120000_TOTAL_SAMPLE_SIZE_1.json'',
        Some [rec ''r1'' ''a'' 1])]) \<and>
   integrate_changes_with_master export_ok [''L1''] [rec ''r1'' ''a'' 0] noon_200 Written
     [(''TOTAL_MANUAL_LABEL_AT-20250101_120000_TOTAL_SAMPLE_SIZE_1.json'',
       Some [rec ''r1'' ''a'' 1])] =
     (Some ''TOTAL_MANUAL_LABEL_AT-20250101_120000_TOTAL_SAMPLE_SIZE_1.json'', []) \<and>
   latest_master [] = None"
  by (simp add: run_eval)

text \<open>
  \<^verbatim>\<open>update_master_labels\<close> itself removes nothing when the write fails: every file
  of the directory is still there.
\<close>

lemma keys_dict_set: "fst ` set (dict_set k v d) = insert k (fst ` set d)"
  by (induction d) auto

lemma update_master_labels_failed_write:
  "w \<noteq> Written \<Longrightarrow>
   set (glob_master dir)
     \<subseteq> set (glob_master (snd (update_master_labels env L last_labeled now now' w dir)))"
  by (cases w)
    (auto simp: update_master_labels_def glob_master_def write_file_def Let_def
      keys_dict_set split: sum.splits)

section \<open>The order of snapshot names\<close>

text \<open>
  C6. The names of the snapshots should sort as they were created, so that the last name
  in sorted order is the latest snapshot. A second fold-in within the second of the first,
  to the same number of records, finds the name taken and puts the microseconds after the
  second; the digit that follows the second sorts before the letter that follows it in
  the first name. With both files in the directory a reader takes the older one.
\<close>

theorem microsecond_name_sorts_first:
  "new_master_name noon_100 noon_100 1 [] =
     ''TOTAL_MANUAL_LABEL_AT-20250101_120000_TOTAL_SAMPLE_SIZE_1.json'' \<and>
   new_master_name noon_200 noon_200 1
     [''TOTAL_MANUAL_LABEL_AT-20250101_120000_TOTAL_SAMPLE_SIZE_1.json''] =
     ''TOTAL_MANUAL_LABEL_AT-20250101_120000_000200_TOTAL_SAMPLE_SIZE_1.json'' \<and>
   ''TOTAL_MANUAL_LABEL_AT-20250101_120000_000200_TOTAL_SAMPLE_SIZE_1.json''
     < ''TOTAL_MANUAL_LABEL_AT-20250101_120000_TOTAL_SAMPLE_SIZE_1.json'' \<and>
   latest_master
     [(''TOTAL_MANUAL_LABEL_AT-20250101_120000_TOTAL_SAMPLE_SIZE_1.json'',
       Some [rec ''r1'' ''a'' 1]),
      (''TOTAL_MANUAL_LABEL_AT-20250101_120000_000200_TOTAL_SAMPLE_SIZE_1.json'',
       Some [rec ''r1'' ''a'' 0])] =
     Some ''TOTAL_MANUAL_LABEL_AT-20250101_120000_TOTAL_SAMPLE_SIZE_1.json''"
  by (simp add: run_eval)

section \<open>Names of batch artifacts\<close>

subsection \<open>Zero-filled numbers are read back\<close>

lemma digit_char_inj: "a < 10 \<Longrightarrow> b < 10 \<Longrightarrow> digit_char a = digit_char b \<Longrightarrow> a = b"
  unfolding digit_char_def using nth_eq_iff_index_eq [of "''0123456789''" a b] by simp

lemma zpad_Suc: "0 < w \<Longrightarrow> zpad (Suc w) n = zpad w (n div 10) @ [digit_char (n mod 10)]"
proof (cases "n < 10")
  case True
  assume "0 < w"
  then obtain v where w: "w = Suc v" by (cases w) auto
  have z: "str_nat 0 = ''0''" by (simp add: str_nat_digit digit_char_def)
  from True show ?thesis
    by (simp add: zpad_def str_nat_digit z w replicate_append_same)
next
  case False
  then have "str_nat n = str_nat (n div 10) @ [digit_char (n mod 10)]"
    by (simp add: str_nat_step)
  then show ?thesis by (simp add: zpad_def)
qed

lemma zpad_1: "n < 10 \<Longrightarrow> zpad (Suc 0) n = [digit_char n]"
  by (simp add: zpad_def str_nat_digit)

lemma length_zpad: "0 < w \<Longrightarrow> n < 10 ^ w \<Longrightarrow> length (zpad w n) = w"
proof (induction w arbitrary: n)
  case 0
  then show ?case by simp
next
  case (Suc w)
  show ?case
  proof (cases "w = 0")
    case True
    with Suc.prems show ?thesis by (simp add: zpad_1)
  next
    case False
    then have w: "0 < w" by simp
    from Suc.prems have "n div 10 < 10 ^ w" by (simp add: less_mult_imp_div_less mult.commute)
    from Suc.IH [OF w this] show ?thesis by (simp add: zpad_Suc [OF w])
  qed
qed

lemma zpad_inj:
  "0 < w \<Longrightarrow> n < 10 ^ w \<Longrightarrow> m < 10 ^ w \<Longrightarrow> zpad w n = zpad w m \<Longrightarrow> n = m"
proof (induction w arbitrary: n m)
  case 0
  then show ?case by simp
next
  case (Suc w)
  show ?case
  proof (cases "w = 0")
    case True
    with Suc.prems show ?thesis by (auto simp: zpad_1 dest: digit_char_inj)
  next
    case False
    then have w: "0 < w" by simp
    from Suc.prems have n: "n div 10 < 10 ^ w" and m: "m div 10 < 10 ^ w"
      by (simp_all add: less_mult_imp_div_less mult.commute)
    from Suc.prems(4) have "zpad w (n div 10) = zpad w (m div 10)"
      and d: "digit_char (n mod 10) = digit_char (m mod 10)"
      by (simp_all add: zpad_Suc [OF w])
    from Suc.IH [OF w n m this(1)] have "n div 10 = m div 10" .
    moreover from d have "n mod 10 = m mod 10" by (rule digit_char_inj [rotated 2]) simp_all
    ultimately show ?thesis by (metis div_mult_mod_eq)
  qed
qed

lemma strftime_sec_inj:
  assumes v1: "valid_timestamp t1" and v2: "valid_timestamp t2"
    and e: "strftime_sec t1 = strftime_sec t2"
  shows "clock_second t1 = clock_second t2"
proof -
  have y: "ts_year t < 10 ^ 4" and mo: "ts_month t < 10 ^ 2" and d: "ts_day t < 10 ^ 2"
    and h: "ts_hour t < 10 ^ 2" and mi: "ts_minute t < 10 ^ 2" and s: "ts_second t < 10 ^ 2"
    if "valid_timestamp t" for t
    using that by (simp_all add: valid_timestamp_def)
  note b1 = y [OF v1] mo [OF v1] d [OF v1] h [OF v1] mi [OF v1] s [OF v1]
  note b2 = y [OF v2] mo [OF v2] d [OF v2] h [OF v2] mi [OF v2] s [OF v2]
  have len: "length (zpad 4 (ts_year t1)) = length (zpad 4 (ts_year t2))"
    "length (zpad 2 (ts_month t1)) = length (zpad 2 (ts_month t2))"
    "length (zpad 2 (ts_day t1)) = length (zpad 2 (ts_day t2))"
    "length (zpad 2 (ts_hour t1)) = length (zpad 2 (ts_hour t2))"
    "length (zpad 2 (ts_minute t1)) = length (zpad 2 (ts_minute t2))"
    using b1 b2 by (simp_all add: length_zpad)
  from e have "zpad 4 (ts_year t1) = zpad 4 (ts_year t2)"
    and "zpad 2 (ts_month t1) = zpad 2 (ts_month t2)"
    and "zpad 2 (ts_day t1) = zpad 2 (ts_day t2)"
    and "zpad 2 (ts_hour t1) = zpad 2 (ts_hour t2)"
    and "zpad 2 (ts_minute t1) = zpad 2 (ts_minute t2)"
    and "zpad 2 (ts_second t1) = zpad 2 (ts_second t2)"
    unfolding strftime_sec_def by (simp_all add: len)
  then show ?thesis
    unfolding clock_second_def using b1 b2 by (auto dest: zpad_inj [rotated 3])
qed

lemma strftime_sec_cong: "clock_second t1 = clock_second t2 \<Longrightarrow> strftime_sec t1 = strftime_sec t2"
  by (simp add: clock_second_def strftime_sec_def)

text \<open>
  C7. The name of a batch artifact carries the strategy, the second of its creation, the
  example count, the sample size and the model, and nothing else. Two batches recorded
  with the same strategy, example count, sample size and model have different names
  exactly when they were created in different clock seconds; within one second they get
  the same name.
\<close>

theorem batch_names_collide_within_a_second:
  "valid_timestamp t1 \<Longrightarrow> valid_timestamp t2 \<Longrightarrow>
   (batch_filename m t1 e s mo = batch_filename m t2 e s mo) =
     (clock_second t1 = clock_second t2)"
  by (auto simp: batch_filename_def dest: strftime_sec_inj strftime_sec_cong)

theorem batch_names_collide_within_a_second_witness:
  "valid_timestamp noon_100 \<and> valid_timestamp noon_past_5s \<and>
   batch_filename ''longest'' noon_100 30 10 ''gpt-4.1-2025-04-14'' \<noteq>
   batch_filename ''longest'' noon_past_5s 30 10 ''gpt-4.1-2025-04-14''"
  using batch_names_collide_within_a_second
    [of noon_100 noon_past_5s "''longest''" 30 10 "''gpt-4.1-2025-04-14''"]
  by (simp add: valid_timestamp_def clock_second_def)

text \<open>
  The specification asks for different names within one second too. Two readings of the
  clock within one second give the same name.
\<close>

theorem batch_names_same_within_a_second:
  "noon_100 \<noteq> noon_200 \<and>
   batch_filename ''longest'' noon_100 30 10 ''gpt-4.1-2025-04-14'' =
   batch_filename ''longest'' noon_200 30 10 ''gpt-4.1-2025-04-14''"
  by (simp add: batch_filename_def strftime_sec_def)

section \<open>Changes made in the spreadsheet\<close>


lemma modified_value_row_label:
  "convertible L row \<Longrightarrow> c \<in> set L \<Longrightarrow> modified_value row c = Inr (row_label row c)"
  by (auto simp: convertible_def row_label_def list_all_iff split: sum.splits)
















section \<open>Cells that are not numbers\<close>





section \<open>The longest texts\<close>

lemma insort_key_map:
  "insort_key f (g x) (map g ys) = map g (insort_key (\<lambda>y. f (g y)) x ys)"
  by (induction ys) simp_all

lemma sort_key_map: "sort_key f (map g xs) = map g (sort_key (\<lambda>y. f (g y)) xs)"
  by (induction xs) (simp_all add: insort_key_map)

lemma loc_own_rows:
  "distinct (map fst df) \<Longrightarrow> set rows \<subseteq> set df \<Longrightarrow> loc df (map fst rows) = rows"
proof (induction rows)
  case Nil
  then show ?case by (simp add: loc_def)
next
  case (Cons p rows)
  from Cons.prems have p: "p \<in> set df" by simp
  have "filter (\<lambda>q. fst q = fst p) df = [p]"
    using Cons.prems(1) p
  proof (induction df)
    case Nil
    then show ?case by simp
  next
    case (Cons q df)
    show ?case
    proof (cases "q = p")
      case True
      with Cons.prems(1) have "\<forall>r \<in> set df. fst r \<noteq> fst p" by (auto simp: image_iff)
      then have "filter (\<lambda>q. fst q = fst p) df = []" by (simp add: filter_empty_conv)
      with True show ?thesis by simp
    next
      case False
      with Cons.prems have "p \<in> set df" by simp
      with Cons.prems(1) have "fst q \<noteq> fst p" by (auto simp: image_iff)
      with Cons.IH \<open>p \<in> set df\<close> Cons.prems(1) show ?thesis by simp
    qed
  qed
  with Cons show ?case by (simp add: loc_def)
qed

lemma select_batch_by_length_closed:
  assumes "distinct (map fst df)"
  shows "select_batch_by_length df labeled k =
     (if k \<le> 0 then []
      else take (nat k) (sort_key (\<lambda>p. - int (text_len p))
                           (filter (\<lambda>p. df_id (snd p) \<notin> labeled) df)))"
proof -
  let ?u = "filter (\<lambda>p. df_id (snd p) \<notin> labeled) df"
  let ?s = "sort_key (\<lambda>p. - int (text_len p)) ?u"
  let ?n = "min k (int (length ?u))"
  have du: "distinct (map fst ?u)" using assms by (simp add: distinct_map_filter)
  have series: "sort_key (\<lambda>p. - int (snd p)) (str_len ?u) =
                map (\<lambda>p. (fst p, length (df_text (snd p)))) ?s"
    by (simp add: str_len_def sort_key_map text_len_def)
  have labels: "map fst (nlargest ?n (str_len ?u)) =
                (if ?n \<le> 0 then [] else map fst (take (nat ?n) ?s))"
    by (simp add: nlargest_def series take_map comp_def del: min_less_iff_conj)
  have sub: "set (take (nat ?n) ?s) \<subseteq> set ?u"
    using set_take_subset [of "nat ?n" ?s] by simp
  have tk: "take (nat ?n) ?s = take (nat k) ?s" if "0 < k"
    using that by (cases "k \<le> int (length ?u)") (simp_all add: min_def)
  show ?thesis
  proof (cases "?u = []")
    case True
    then show ?thesis by (simp add: select_batch_by_length_def Let_def)
  next
    case False
    then have len: "0 < length ?u" by simp
    show ?thesis
    proof (cases "k \<le> 0")
      case True
      then have "nlargest ?n (str_len ?u) = []" by (simp add: nlargest_def min_def)
      with True show ?thesis
        by (simp add: select_batch_by_length_def Let_def loc_def)
    next
      case k: False
      then have "\<not> ?n \<le> 0" using len by (simp add: min_def)
      with False k loc_own_rows [OF du sub] show ?thesis
        by (simp add: select_batch_by_length_def Let_def labels tk)
    qed
  qed
qed

lemma prefix_filter_take: "prefix (filter P (take n xs)) (filter P xs)"
proof -
  have "filter P xs = filter P (take n xs) @ filter P (drop n xs)"
    by (metis append_take_drop_id filter_append)
  then show ?thesis by (simp add: prefix_def)
qed

lemma sorted_take_drop:
  "sorted (map f xs) \<Longrightarrow> x \<in> set (take n xs) \<Longrightarrow> y \<in> set (drop n xs) \<Longrightarrow> f x \<le> f y"
proof -
  assume s: "sorted (map f xs)" and x: "x \<in> set (take n xs)" and y: "y \<in> set (drop n xs)"
  have "sorted (map f (take n xs) @ map f (drop n xs))"
    using s by (metis append_take_drop_id map_append)
  with x y show ?thesis by (auto simp: sorted_append)
qed

text \<open>
  C9. For a frame with unique index labels, \<^verbatim>\<open>select_batch_by_length\<close> returns rows
  of the frame whose identifier is not among the labeled ones, none of them twice; it
  returns \<open>k\<close> of them, or all of them when fewer than \<open>k\<close> are left, and none when none
  is left or \<open>k\<close> is not positive; no row that it leaves out has a longer text than a
  row that it returns; among the rows with texts of one length it returns those that come
  first in the frame; and it returns the longest texts first.
\<close>

theorem longest_batch_selected:
  assumes "distinct (map fst df)"
  shows "set (select_batch_by_length df labeled k)
           \<subseteq> set (filter (\<lambda>p. df_id (snd p) \<notin> labeled) df) \<and>
         distinct (select_batch_by_length df labeled k) \<and>
         length (select_batch_by_length df labeled k) =
           (if k \<le> 0 then 0
            else min (nat k) (length (filter (\<lambda>p. df_id (snd p) \<notin> labeled) df))) \<and>
         (\<forall>x \<in> set (select_batch_by_length df labeled k).
            \<forall>y \<in> set (filter (\<lambda>p. df_id (snd p) \<notin> labeled) df)
                  - set (select_batch_by_length df labeled k).
              text_len y \<le> text_len x) \<and>
         (\<forall>n. prefix (filter (\<lambda>p. text_len p = n) (select_batch_by_length df labeled k))
                     (filter (\<lambda>p. text_len p = n)
                        (filter (\<lambda>p. df_id (snd p) \<notin> labeled) df))) \<and>
         sorted (rev (map text_len (select_batch_by_length df labeled k)))"
proof -
  let ?u = "filter (\<lambda>p. df_id (snd p) \<notin> labeled) df"
  let ?key = "\<lambda>p. - int (text_len p)"
  let ?s = "sort_key ?key ?u"
  let ?res = "select_batch_by_length df labeled k"
  note closed = select_batch_by_length_closed [OF assms, of labeled k]
  have du: "distinct ?u" using assms by (simp add: distinct_map_filter distinct_map [THEN iffD1])
  show ?thesis
  proof (cases "k \<le> 0")
    case True
    then show ?thesis by (simp add: closed)
  next
    case False
    then have res: "?res = take (nat k) ?s" by (simp add: closed)
    have p1: "set ?res \<subseteq> set ?u"
      unfolding res using set_take_subset [of "nat k" ?s] by simp
    have p2: "distinct ?res" unfolding res using du by simp
    have p3: "length ?res = min (nat k) (length ?u)" unfolding res by (simp add: min.commute)
    have p4: "text_len y \<le> text_len x" if "x \<in> set ?res" and "y \<in> set ?u - set ?res" for x y
    proof -
      from that(2) have "y \<in> set ?s" and "y \<notin> set (take (nat k) ?s)" by (simp_all add: res)
      then have "y \<in> set (drop (nat k) ?s)"
        by (metis Un_iff append_take_drop_id set_append)
      from sorted_take_drop [of ?key ?s x "nat k" y, OF _ that(1) [unfolded res] this]
      show ?thesis by simp
    qed
    have p5: "prefix (filter (\<lambda>p. text_len p = n) ?res) (filter (\<lambda>p. text_len p = n) ?u)" for n
    proof -
      have "filter (\<lambda>p. ?key p = - int n) ?s = filter (\<lambda>p. ?key p = - int n) ?u"
        by (rule sort_key_stable)
      then have "filter (\<lambda>p. text_len p = n) ?s = filter (\<lambda>p. text_len p = n) ?u" by simp
      with prefix_filter_take [of "\<lambda>p. text_len p = n" "nat k" ?s] show ?thesis
        by (simp add: res)
    qed
    have "sorted (map ?key ?res)" unfolding res
      by (metis sorted_sort_key sorted_wrt_take take_map)
    then have p6: "sorted (rev (map text_len ?res))"
      by (simp add: sorted_map sorted_wrt_rev sorted_wrt_map flip: rev_map)
    from False p3 have q3: "length ?res = (if k \<le> 0 then 0 else min (nat k) (length ?u))"
      by simp
    from p4 have q4: "\<forall>x \<in> set ?res. \<forall>y \<in> set ?u - set ?res. text_len y \<le> text_len x"
      by blast
    from p5 have q5: "\<forall>n. prefix (filter (\<lambda>p. text_len p = n) ?res)
                                (filter (\<lambda>p. text_len p = n) ?u)"
      by blast
    show ?thesis by (intro conjI) (fact p1 p2 q3 q4 q5 p6)+
  qed
qed

lemmas select_eval = select_batch_by_length_def nlargest_def str_len_def loc_def text_len_def
  Let_def

theorem longest_batch_selected_witness:
  "distinct (map fst
     [(0::nat, frame_row ''a'' ''aa''), (1, frame_row ''b'' ''bbbbb''), (2, frame_row ''c'' ''cc''),
      (3, frame_row ''d'' ''dddd''), (4, frame_row ''e'' ''eeee''), (5, frame_row ''f'' ''f'')]) \<and>
   select_batch_by_length
     [(0, frame_row ''a'' ''aa''), (1, frame_row ''b'' ''bbbbb''), (2, frame_row ''c'' ''cc''),
      (3, frame_row ''d'' ''dddd''), (4, frame_row ''e'' ''eeee''), (5, frame_row ''f'' ''f'')]
     {''b''} 3 =
     [(3, frame_row ''d'' ''dddd''), (4, frame_row ''e'' ''eeee''), (0, frame_row ''a'' ''aa'')] \<and>
   length (select_batch_by_length
     [(0, frame_row ''a'' ''aa''), (1, frame_row ''b'' ''bbbbb''), (2, frame_row ''c'' ''cc''),
      (3, frame_row ''d'' ''dddd''), (4, frame_row ''e'' ''eeee''), (5, frame_row ''f'' ''f'')]
     {''b''} 3) = 3 \<and>
   length (select_batch_by_length
     [(0, frame_row ''a'' ''aa''), (1, frame_row ''b'' ''bbbbb'')] {''b''} 3) = 1 \<and>
   select_batch_by_length
     [(0, frame_row ''a'' ''aa''), (1, frame_row ''b'' ''bbbbb'')] {''a'', ''b''} 3 = []"
  using longest_batch_selected
    [of "[(0, frame_row ''a'' ''aa''), (1, frame_row ''b'' ''bbbbb''), (2, frame_row ''c'' ''cc''),
          (3, frame_row ''d'' ''dddd''), (4, frame_row ''e'' ''eeee''), (5, frame_row ''f'' ''f'')]"
        "{''b''}" 3]
    longest_batch_selected
    [of "[(0, frame_row ''a'' ''aa''), (1, frame_row ''b'' ''bbbbb'')]" "{''b''}" 3]
    longest_batch_selected
    [of "[(0, frame_row ''a'' ''aa''), (1, frame_row ''b'' ''bbbbb'')]" "{''a'', ''b''}" 3]
  by (simp add: select_eval)

end
